theory Spec2Isabelle
  imports Main
begin

section \<open>Python values used by the linter\<close>

text \<open>
  The linter (\<^verbatim>\<open>src/linter.py\<close>) works on Python strings, lists of strings and parsed
  JSON documents. A Python \<^verbatim>\<open>str\<close> is modelled as a \<^typ>\<open>string\<close> in which every
  \<^typ>\<open>char\<close> stands for one code point below 256; names holding other code points are
  outside the model. An exception is a value of \<open>error\<close>; a call either returns, raises,
  or lies outside what is modelled (\<open>Unmodelled\<close>: a regular expression using syntax
  beyond the fragment below, or an evaluator called with a JSON value that is not a string).
  Exhaustion of resources (recursion depth, memory, running time) is not modelled.
\<close>

datatype error = KeyError | IndexError | TypeError | AttributeError | ReError

datatype 'a outcome = Returns 'a | Raises error | Unmodelled

fun obind :: "'a outcome \<Rightarrow> ('a \<Rightarrow> 'b outcome) \<Rightarrow> 'b outcome" where
  "obind (Returns x) f = f x"
| "obind (Raises e) f = Raises e"
| "obind Unmodelled f = Unmodelled"

abbreviation sq :: string where
  "sq \<equiv> [CHR 0x27]"

abbreviation backslash :: char where
  "backslash \<equiv> CHR 0x5C"

abbreviation newline :: char where
  "newline \<equiv> CHR 0x0A"

subsection \<open>String methods\<close>

text \<open>\<^verbatim>\<open>s.startswith(p)\<close>, \<^verbatim>\<open>s.endswith(p)\<close> and \<^verbatim>\<open>p in s\<close> on strings.\<close>

fun startswith :: "string \<Rightarrow> string \<Rightarrow> bool" where
  "startswith s [] = True"
| "startswith [] (p # ps) = False"
| "startswith (c # cs) (p # ps) = (c = p \<and> startswith cs ps)"

definition endswith :: "string \<Rightarrow> string \<Rightarrow> bool" where
  "endswith s p = startswith (rev s) (rev p)"

fun contains :: "string \<Rightarrow> string \<Rightarrow> bool" where
  "contains [] p = (p = [])"
| "contains (c # cs) p = (startswith (c # cs) p \<or> contains cs p)"

text \<open>\<^verbatim>\<open>s.split(c)\<close> for a one-character separator: always at least one token.\<close>

fun split_on :: "char \<Rightarrow> string \<Rightarrow> string list" where
  "split_on c [] = [[]]"
| "split_on c (x # xs) =
     (if x = c then [] # split_on c xs
      else (x # hd (split_on c xs)) # tl (split_on c xs))"

text \<open>\<^verbatim>\<open>sep.join(xs)\<close>.\<close>

fun join :: "string \<Rightarrow> string list \<Rightarrow> string" where
  "join sep [] = []"
| "join sep [x] = x"
| "join sep (x # y # ys) = x @ sep @ join sep (y # ys)"

text \<open>
  \<^verbatim>\<open>s.lower()\<close> on code points below 256: the ASCII capitals and the Latin-1 capitals
  (0xC0 to 0xDE without the multiplication sign 0xD7) move up by 32.
\<close>

definition lower_char :: "char \<Rightarrow> char" where
  "lower_char c =
     (let n = (of_char c :: nat) in
      if (65 \<le> n \<and> n \<le> 90) \<or> (192 \<le> n \<and> n \<le> 222 \<and> n \<noteq> 215)
      then char_of (n + 32) else c)"

definition lower :: "string \<Rightarrow> string" where
  "lower s = map lower_char s"

text \<open>\<^verbatim>\<open>xs[i]\<close> on a list: negative indices count from the end, out of range raises.\<close>

definition getitem :: "'a list \<Rightarrow> int \<Rightarrow> 'a outcome" where
  "getitem xs i =
     (let n = int (length xs); j = (if i < 0 then n + i else i) in
      if 0 \<le> j \<and> j < n then Returns (xs ! nat j) else Raises IndexError)"

section \<open>The regular expressions of Python's re module\<close>

text \<open>
  \<^verbatim>\<open>re.match(pattern, string)\<close> compiles the pattern and looks for a match that starts
  at the beginning of the string. The linter gives it three fixed patterns and, in
  \<^verbatim>\<open>lint_trigger\<close>, a pattern built from the trigger name, so the pattern language is
  part of the program. The fragment modelled: literals, \<^verbatim>\<open>.\<close>, \<^verbatim>\<open>^\<close>, \<^verbatim>\<open>$\<close>, \<^verbatim>\<open>|\<close>,
  capturing groups, the quantifiers \<^verbatim>\<open>*\<close>, \<^verbatim>\<open>+\<close>, \<^verbatim>\<open>?\<close>, \<^verbatim>\<open>{m}\<close>, \<^verbatim>\<open>{m,n}\<close> and
  their lazy forms, character sets with ranges and negation, the escapes \<^verbatim>\<open>\d\<close>,
  \<^verbatim>\<open>\D\<close> and an escaped character that is no ASCII letter or digit. Every other
  construct (group extensions \<^verbatim>\<open>(?...)\<close>, other letter and digit escapes, possessive
  quantifiers, repeat counts written with more than nine digits, which may exceed the
  largest count the engine accepts) makes the compilation \<open>Unmodelled\<close>.
  A malformed pattern raises \<^verbatim>\<open>re.error\<close> (\<open>ReError\<close>).
\<close>

datatype cset_item = CChar char | CRange char char | CDigit | CNotDigit

datatype regex =
    Lit char
  | AnyChar
  | InSet bool "cset_item list"
  | Digit
  | NotDigit
  | Bol
  | Eol
  | Grp regex
  | Rep nat "nat option" regex
  | Seq "regex list"
  | Alt "regex list"

datatype token = TAtom regex | TRep nat "nat option" | TOpen | TClose | TBar

definition is_digit :: "char \<Rightarrow> bool" where
  "is_digit c = (c \<in> set ''0123456789'')"

definition is_ascii_letter :: "char \<Rightarrow> bool" where
  "is_ascii_letter c =
     (c \<in> set ''abcdefghijklmnopqrstuvwxyzABCDEFGHIJKLMNOPQRSTUVWXYZ'')"

text \<open>The characters the parser treats specially outside a set (\<^verbatim>\<open>SPECIAL_CHARS\<close>).\<close>

definition special_chars :: "char list" where
  "special_chars = backslash # ''.[{()*+?^$|''"

definition digits_value :: "string \<Rightarrow> nat" where
  "digits_value ds = foldl (\<lambda>n c. 10 * n + (of_char c - 48)) 0 ds"

subsection \<open>Reading the pattern\<close>

text \<open>
  An escape outside or inside a set: \<^verbatim>\<open>\d\<close>, \<^verbatim>\<open>\D\<close>, or the escaped character itself
  when it is no ASCII letter or digit. A backslash that ends the pattern is an error.
\<close>

datatype escape = EDigit | ENotDigit | EChar char

definition read_escape :: "string \<Rightarrow> (escape \<times> string) outcome" where
  "read_escape cs =
     (case cs of
        [] \<Rightarrow> Raises ReError
      | d # ds \<Rightarrow>
          if d = CHR ''d'' then Returns (EDigit, ds)
          else if d = CHR ''D'' then Returns (ENotDigit, ds)
          else if is_ascii_letter d \<or> is_digit d then Unmodelled
          else Returns (EChar d, ds))"

definition escape_item :: "escape \<Rightarrow> cset_item" where
  "escape_item e = (case e of EDigit \<Rightarrow> CDigit | ENotDigit \<Rightarrow> CNotDigit | EChar c \<Rightarrow> CChar c)"

definition escape_atom :: "escape \<Rightarrow> regex" where
  "escape_atom e = (case e of EDigit \<Rightarrow> Digit | ENotDigit \<Rightarrow> NotDigit | EChar c \<Rightarrow> Lit c)"

text \<open>One member of a set, read from a non-empty rest of the pattern.\<close>

definition set_atom :: "char \<Rightarrow> string \<Rightarrow> (cset_item \<times> string) outcome" where
  "set_atom c cs =
     (if c = backslash
      then obind (read_escape cs) (\<lambda>(e, r). Returns (escape_item e, r))
      else Returns (CChar c, cs))"

lemma read_escape_shorter:
  "read_escape cs = Returns (e, r) \<Longrightarrow> length r < length cs"
  by (auto simp: read_escape_def split: list.splits if_splits)

lemma set_atom_shorter:
  "set_atom c cs = Returns (i, r) \<Longrightarrow> length r \<le> length cs"
proof (cases "c = backslash")
  case True
  assume a: "set_atom c cs = Returns (i, r)"
  show ?thesis
  proof (cases "read_escape cs")
    case (Returns p)
    obtain e r' where p: "p = (e, r')" by (cases p)
    from a True Returns p have "r' = r" by (simp add: set_atom_def)
    with Returns p read_escape_shorter [of cs e r] show ?thesis by simp
  next
    case (Raises x)
    with a True show ?thesis by (simp add: set_atom_def)
  next
    case Unmodelled
    with a True show ?thesis by (simp add: set_atom_def)
  qed
next
  case False
  assume "set_atom c cs = Returns (i, r)"
  with False show ?thesis by (simp add: set_atom_def)
qed

text \<open>
  The members of a set after \<^verbatim>\<open>[\<close> (and after \<^verbatim>\<open>^\<close>): \<^verbatim>\<open>]\<close> closes the set unless it
  comes first; \<^verbatim>\<open>a-b\<close> is a range, whose ends are single characters in order; a
  \<^verbatim>\<open>-\<close> before the closing \<^verbatim>\<open>]\<close> is a literal. The accumulator holds the members read
  so far, last first.
\<close>

function lex_set :: "cset_item list \<Rightarrow> string \<Rightarrow> (cset_item list \<times> string) outcome" where
  "lex_set acc [] = Raises ReError"
| "lex_set acc (c # cs) =
     (if c = CHR '']'' \<and> acc \<noteq> [] then Returns (rev acc, cs)
      else
        (case set_atom c cs of
           Raises e \<Rightarrow> Raises e
         | Unmodelled \<Rightarrow> Unmodelled
         | Returns (i1, r1) \<Rightarrow>
             (case r1 of
                [] \<Rightarrow> lex_set (i1 # acc) r1
              | d # r2 \<Rightarrow>
                  if d \<noteq> CHR ''-'' then lex_set (i1 # acc) r1
                  else
                    (case r2 of
                       [] \<Rightarrow> Raises ReError
                     | c2 # r3 \<Rightarrow>
                         if c2 = CHR '']'' then Returns (rev (CChar CHR ''-'' # i1 # acc), r3)
                         else
                           (case set_atom c2 r3 of
                              Raises e \<Rightarrow> Raises e
                            | Unmodelled \<Rightarrow> Unmodelled
                            | Returns (i2, r4) \<Rightarrow>
                                (case (i1, i2) of
                                   (CChar lo, CChar hi) \<Rightarrow>
                                     if (of_char hi :: nat) < of_char lo then Raises ReError
                                     else lex_set (CRange lo hi # acc) r4
                                 | _ \<Rightarrow> Raises ReError))))))"
  by pat_completeness auto
termination
proof (relation "measure (\<lambda>(acc, s). length s)")
  show "wf (measure (\<lambda>(acc, s). length s))" by simp
next
  fix acc c cs x i1 r1
  assume "set_atom c cs = Returns x" "(i1, r1) = x"
  then have "length r1 \<le> length cs" using set_atom_shorter [of c cs i1 r1] by simp
  then show "((i1 # acc, r1), (acc, c # cs)) \<in> measure (\<lambda>(acc, s). length s)" by simp
next
  fix acc c cs x i1 r1 d r2
  assume "set_atom c cs = Returns x" "(i1, r1) = x"
  then have "length r1 \<le> length cs" using set_atom_shorter [of c cs i1 r1] by simp
  then show "((i1 # acc, r1), (acc, c # cs)) \<in> measure (\<lambda>(acc, s). length s)" by simp
next
  fix acc c cs x i1 r1 d r2 c2 r3 y i2 r4 z lo w hi
  assume a: "set_atom c cs = Returns x" "(i1, r1) = x" "r1 = d # r2" "r2 = c2 # r3"
    "set_atom c2 r3 = Returns y" "(i2, r4) = y"
  from a have "length r1 \<le> length cs" using set_atom_shorter [of c cs i1 r1] by simp
  moreover from a have "length r4 \<le> length r3" using set_atom_shorter [of c2 r3 i2 r4] by simp
  ultimately show "((CRange lo hi # acc, r4), (acc, c # cs)) \<in> measure (\<lambda>(acc, s). length s)"
    using a by simp
qed

lemma lex_set_shorter:
  "lex_set acc s = Returns (items, r) \<Longrightarrow> length r \<le> length s"
proof (induction acc s rule: lex_set.induct)
  case (1 acc)
  then show ?case by simp
next
  case (2 acc c cs)
  show ?case
  proof (cases "c = CHR '']'' \<and> acc \<noteq> []")
    case True
    with "2.prems" show ?thesis by auto
  next
    case False
    show ?thesis
    proof (cases "set_atom c cs")
      case (Raises e)
      with False "2.prems" show ?thesis by auto
    next
      case Unmodelled
      with False "2.prems" show ?thesis by auto
    next
      case (Returns x)
      obtain i1 r1 where x: "x = (i1, r1)" by (cases x)
      have l1: "length r1 \<le> length cs"
        using Returns x set_atom_shorter [of c cs i1 r1] by simp
      show ?thesis
      proof (cases r1)
        case Nil
        with False Returns x "2.prems" have "lex_set (i1 # acc) r1 = Returns (items, r)"
          by auto
        with "2.IH"(1) [OF False Returns x [symmetric] Nil] l1 Nil show ?thesis by simp
      next
        case (Cons d r2)
        show ?thesis
        proof (cases "d = CHR ''-''")
          case dneq: False
          with False Returns x Cons "2.prems" have "lex_set (i1 # acc) r1 = Returns (items, r)"
            by auto
          with "2.IH"(2) [OF False Returns x [symmetric] Cons dneq] l1 show ?thesis by simp
        next
          case deq: True
          show ?thesis
          proof (cases r2)
            case Nil
            with False Returns x Cons deq "2.prems" show ?thesis by auto
          next
            case r2: (Cons c2 r3)
            show ?thesis
            proof (cases "c2 = CHR '']''")
              case True
              with False Returns x Cons deq r2 "2.prems" have "r = r3" by auto
              with l1 Cons r2 show ?thesis by simp
            next
              case c2: False
              show ?thesis
              proof (cases "set_atom c2 r3")
                case (Raises e)
                with False Returns x Cons deq r2 c2 "2.prems" show ?thesis by auto
              next
                case Unmodelled
                with False Returns x Cons deq r2 c2 "2.prems" show ?thesis by auto
              next
                case ret2: (Returns y)
                obtain i2 r4 where y: "y = (i2, r4)" by (cases y)
                have l2: "length r4 \<le> length r3"
                  using ret2 y set_atom_shorter [of c2 r3 i2 r4] by simp
                from False Returns x Cons deq r2 c2 ret2 y "2.prems"
                obtain lo hi where lh: "i1 = CChar lo" "i2 = CChar hi"
                  "\<not> (of_char hi :: nat) < of_char lo"
                  "lex_set (CRange lo hi # acc) r4 = Returns (items, r)"
                  by (auto split: cset_item.splits if_splits)
                have dd: "\<not> d \<noteq> CHR ''-''" using deq by simp
                have "length r \<le> length r4"
                  using "2.IH"(3) [OF False Returns x [symmetric] Cons dd r2 c2 ret2
                      y [symmetric] refl lh(1) lh(2) lh(3)] lh(4)
                  by simp
                with l1 l2 Cons r2 show ?thesis by simp
              qed
            qed
          qed
        qed
      qed
    qed
  qed
qed

text \<open>
  A brace after an item: \<^verbatim>\<open>{m}\<close>, \<^verbatim>\<open>{m,n}\<close>, \<^verbatim>\<open>{m,}\<close>, \<^verbatim>\<open>{,n}\<close> are quantifiers;
  a brace that does not read as one of these is a literal character (\<open>None\<close>).
\<close>

definition read_braces :: "string \<Rightarrow> ((nat \<times> nat option) \<times> string) option outcome" where
  "read_braces cs =
     (if startswith cs ''}'' then Returns None
      else
        (let lo = takeWhile is_digit cs;
             r1 = dropWhile is_digit cs;
             hi = (if startswith r1 '','' then takeWhile is_digit (tl r1) else lo);
             r2 = (if startswith r1 '','' then dropWhile is_digit (tl r1) else r1)
         in if \<not> startswith r2 ''}'' then Returns None
            else
              (let mn = (if lo = [] then 0 else digits_value lo);
                   mx = (if hi = [] then None else Some (digits_value hi))
               in if 9 < length lo \<or> 9 < length hi then Unmodelled
                  else
                    (case mx of
                       None \<Rightarrow> Returns (Some ((mn, mx), tl r2))
                     | Some h \<Rightarrow>
                         if h < mn then Raises ReError
                         else Returns (Some ((mn, mx), tl r2))))))"

text \<open>
  After a quantifier, \<^verbatim>\<open>?\<close> makes it lazy, which changes the match found but not
  whether there is one; \<^verbatim>\<open>+\<close> (possessive from Python 3.11 on, an error before) is
  not modelled.
\<close>

definition quantifier :: "nat \<Rightarrow> nat option \<Rightarrow> string \<Rightarrow> (token \<times> string) outcome" where
  "quantifier m n cs =
     (if startswith cs ''?'' then Returns (TRep m n, tl cs)
      else if startswith cs ''+'' then Unmodelled
      else Returns (TRep m n, cs))"

text \<open>The next token of the pattern, and the rest of the pattern after it.\<close>

definition lex1 :: "char \<Rightarrow> string \<Rightarrow> (token \<times> string) outcome" where
  "lex1 c cs =
     (if c = backslash
      then obind (read_escape cs) (\<lambda>(e, r). Returns (TAtom (escape_atom e), r))
      else if c = CHR ''[''
      then obind (lex_set [] (if startswith cs ''^'' then tl cs else cs))
             (\<lambda>(items, r). Returns (TAtom (InSet (startswith cs ''^'') items), r))
      else if c = CHR ''*'' then quantifier 0 None cs
      else if c = CHR ''+'' then quantifier 1 None cs
      else if c = CHR ''?'' then quantifier 0 (Some 1) cs
      else if c = CHR ''{''
      then obind (read_braces cs)
             (\<lambda>b. case b of
                    None \<Rightarrow> Returns (TAtom (Lit c), cs)
                  | Some ((m, n), r) \<Rightarrow> quantifier m n r)
      else if c = CHR ''.'' then Returns (TAtom AnyChar, cs)
      else if c = CHR ''^'' then Returns (TAtom Bol, cs)
      else if c = CHR ''$'' then Returns (TAtom Eol, cs)
      else if c = CHR ''('' then (if startswith cs ''?'' then Unmodelled else Returns (TOpen, cs))
      else if c = CHR '')'' then Returns (TClose, cs)
      else if c = CHR ''|'' then Returns (TBar, cs)
      else Returns (TAtom (Lit c), cs))"

lemma startswith_single:
  "startswith cs [c] \<Longrightarrow> length (tl cs) < length cs"
  by (cases cs) auto

lemma quantifier_shorter:
  "quantifier m n cs = Returns (t, r) \<Longrightarrow> length r \<le> length cs"
  by (auto simp: quantifier_def split: if_splits)

lemma read_braces_shorter:
  "read_braces cs = Returns (Some (q, r)) \<Longrightarrow> length r \<le> length cs"
proof -
  assume a: "read_braces cs = Returns (Some (q, r))"
  define r1 where "r1 = dropWhile is_digit cs"
  define r2 where "r2 = (if startswith r1 '','' then dropWhile is_digit (tl r1) else r1)"
  have l1: "length r1 \<le> length cs" by (simp add: r1_def length_dropWhile_le)
  have "length (dropWhile is_digit (tl r1)) \<le> length (tl r1)" by (rule length_dropWhile_le)
  also have "\<dots> \<le> length r1" by simp
  finally have "length (dropWhile is_digit (tl r1)) \<le> length r1" .
  then have l2: "length r2 \<le> length r1" unfolding r2_def by simp
  from a have "r = tl r2"
    by (auto simp: read_braces_def Let_def r1_def r2_def split: if_splits option.splits)
  with l1 l2 show ?thesis by simp
qed

lemma lex1_shorter:
  "lex1 c cs = Returns (t, r) \<Longrightarrow> length r \<le> length cs"
proof -
  assume a: "lex1 c cs = Returns (t, r)"
  consider (esc) "c = backslash" | (set) "c = CHR ''[''" | (star) "c = CHR ''*''"
    | (plus) "c = CHR ''+''" | (opt) "c = CHR ''?''" | (brace) "c = CHR ''{''"
    | (other) "c \<notin> {backslash, CHR ''['', CHR ''*'', CHR ''+'', CHR ''?'', CHR ''{''}"
    by auto
  then show ?thesis
  proof cases
    case esc
    show ?thesis
    proof (cases "read_escape cs")
      case (Returns p)
      obtain e r' where p: "p = (e, r')" by (cases p)
      with a esc Returns have "r' = r" by (simp add: lex1_def)
      with Returns p read_escape_shorter [of cs e r] show ?thesis by simp
    qed (use a esc in \<open>simp_all add: lex1_def\<close>)
  next
    case set
    define body where "body = (if startswith cs ''^'' then tl cs else cs)"
    have lb: "length body \<le> length cs" by (simp add: body_def)
    show ?thesis
    proof (cases "lex_set [] body")
      case (Returns p)
      obtain items r' where p: "p = (items, r')" by (cases p)
      with a set Returns have "r' = r" by (simp add: lex1_def body_def)
      with Returns p lex_set_shorter [of "[]" body items r] lb show ?thesis by simp
    qed (use a set in \<open>simp_all add: lex1_def body_def\<close>)
  next
    case star
    with a show ?thesis by (simp add: lex1_def quantifier_shorter)
  next
    case plus
    with a show ?thesis by (simp add: lex1_def quantifier_shorter)
  next
    case opt
    with a show ?thesis by (simp add: lex1_def quantifier_shorter)
  next
    case brace
    show ?thesis
    proof (cases "read_braces cs")
      case (Returns b)
      show ?thesis
      proof (cases b)
        case None
        with a brace Returns show ?thesis by (simp add: lex1_def)
      next
        case (Some qr)
        obtain m n r' where qr: "qr = ((m, n), r')" by (cases qr) auto
        with a brace Returns Some have q: "quantifier m n r' = Returns (t, r)"
          by (simp add: lex1_def)
        from Returns Some qr have "length r' \<le> length cs"
          using read_braces_shorter [of cs "(m, n)" r'] by simp
        with quantifier_shorter [OF q] show ?thesis by simp
      qed
    qed (use a brace in \<open>simp_all add: lex1_def\<close>)
  next
    case other
    with a show ?thesis by (auto simp: lex1_def split: if_splits)
  qed
qed

function lex_pattern :: "string \<Rightarrow> token list outcome" where
  "lex_pattern [] = Returns []"
| "lex_pattern (c # cs) =
     (case lex1 c cs of
        Raises e \<Rightarrow> Raises e
      | Unmodelled \<Rightarrow> Unmodelled
      | Returns (t, r) \<Rightarrow> obind (lex_pattern r) (\<lambda>ts. Returns (t # ts)))"
  by pat_completeness auto
termination
proof (relation "measure length")
  show "wf (measure length)" by simp
next
  fix c cs x t r
  assume "lex1 c cs = Returns x" "(t, r) = x"
  then have "length r \<le> length cs" using lex1_shorter [of c cs t r] by simp
  then show "(r, c # cs) \<in> measure length" by simp
qed

subsection \<open>Building the expression\<close>

text \<open>
  The parser keeps, for the group being read, the finished branches of its alternation
  and the items of the current branch (both last first), and a stack of the same for the
  enclosing groups. A quantifier applies to the last item: with no item, or after
  \<^verbatim>\<open>^\<close> or \<^verbatim>\<open>$\<close>, there is nothing to repeat; after another quantifier it is a multiple
  repeat. A \<^verbatim>\<open>)\<close> with no open group and an open group at the end are errors.
\<close>

type_synonym frame = "regex list \<times> regex list"

definition close_frame :: "frame \<Rightarrow> regex" where
  "close_frame fr =
     (if fst fr = [] then Seq (rev (snd fr))
      else Alt (rev (Seq (rev (snd fr)) # fst fr)))"

fun is_anchor :: "regex \<Rightarrow> bool" where
  "is_anchor Bol = True"
| "is_anchor Eol = True"
| "is_anchor r = False"

fun is_repeat :: "regex \<Rightarrow> bool" where
  "is_repeat (Rep m n r) = True"
| "is_repeat r = False"

fun parse_tokens :: "token list \<Rightarrow> frame \<Rightarrow> frame list \<Rightarrow> regex outcome" where
  "parse_tokens [] fr stack = (if stack = [] then Returns (close_frame fr) else Raises ReError)"
| "parse_tokens (TAtom a # ts) fr stack = parse_tokens ts (fst fr, a # snd fr) stack"
| "parse_tokens (TBar # ts) fr stack = parse_tokens ts (Seq (rev (snd fr)) # fst fr, []) stack"
| "parse_tokens (TOpen # ts) fr stack = parse_tokens ts ([], []) (fr # stack)"
| "parse_tokens (TClose # ts) fr stack =
     (case stack of
        [] \<Rightarrow> Raises ReError
      | outer # rest \<Rightarrow> parse_tokens ts (fst outer, Grp (close_frame fr) # snd outer) rest)"
| "parse_tokens (TRep m n # ts) fr stack =
     (case snd fr of
        [] \<Rightarrow> Raises ReError
      | x # xs \<Rightarrow>
          if is_anchor x \<or> is_repeat x then Raises ReError
          else parse_tokens ts (fst fr, Rep m n x # xs) stack)"

definition re_compile :: "string \<Rightarrow> regex outcome" where
  "re_compile pattern = obind (lex_pattern pattern) (\<lambda>ts. parse_tokens ts ([], []) [])"

subsection \<open>Matching\<close>

text \<open>
  A position in the subject string is the rest still to be read, together with a flag
  telling whether nothing has been read yet. \<open>ends r p\<close> lists the positions where a
  match of \<open>r\<close> that starts at \<open>p\<close> can end. \<^verbatim>\<open>^\<close> matches at the start of the string,
  \<^verbatim>\<open>$\<close> at its end and before a newline that ends it, \<^verbatim>\<open>.\<close> any character but a
  newline, \<^verbatim>\<open>\d\<close> a decimal digit (below code point 256 these are 0 to 9).
\<close>

type_synonym pos = "bool \<times> string"

definition one_char :: "(char \<Rightarrow> bool) \<Rightarrow> pos \<Rightarrow> pos list" where
  "one_char P p = (case snd p of [] \<Rightarrow> [] | x # xs \<Rightarrow> if P x then [(False, xs)] else [])"

fun in_item :: "char \<Rightarrow> cset_item \<Rightarrow> bool" where
  "in_item x (CChar c) = (x = c)"
| "in_item x (CRange lo hi) = ((of_char lo :: nat) \<le> of_char x \<and> (of_char x :: nat) \<le> of_char hi)"
| "in_item x CDigit = is_digit x"
| "in_item x CNotDigit = (\<not> is_digit x)"

definition step :: "(pos \<Rightarrow> pos list) \<Rightarrow> pos list \<Rightarrow> pos list" where
  "step f ps = remdups (concat (map f ps))"

fun upto_more :: "nat \<Rightarrow> (pos \<Rightarrow> pos list) \<Rightarrow> pos list \<Rightarrow> pos list" where
  "upto_more 0 f ps = ps"
| "upto_more (Suc j) f ps = ps @ upto_more j f (step f ps)"

text \<open>
  \<open>m\<close> to \<open>n\<close> repetitions of \<open>f\<close>; with no upper bound, as many more repetitions as the
  subject has positions, which reaches every position that any number reaches.
\<close>

definition rep_ends :: "nat \<Rightarrow> nat option \<Rightarrow> (pos \<Rightarrow> pos list) \<Rightarrow> pos \<Rightarrow> pos list" where
  "rep_ends m n f p =
     upto_more (case n of None \<Rightarrow> Suc (length (snd p)) | Some k \<Rightarrow> k - m) f
       ((step f ^^ m) [p])"

fun seq_ends :: "(pos \<Rightarrow> pos list) list \<Rightarrow> pos \<Rightarrow> pos list" where
  "seq_ends [] p = [p]"
| "seq_ends (f # fs) p = concat (map (seq_ends fs) (f p))"

definition alt_ends :: "(pos \<Rightarrow> pos list) list \<Rightarrow> pos \<Rightarrow> pos list" where
  "alt_ends fs p = concat (map (\<lambda>f. f p) fs)"

primrec ends :: "regex \<Rightarrow> pos \<Rightarrow> pos list" where
  "ends (Lit c) = one_char (\<lambda>x. x = c)"
| "ends AnyChar = one_char (\<lambda>x. x \<noteq> newline)"
| "ends (InSet negate items) = one_char (\<lambda>x. list_ex (in_item x) items \<noteq> negate)"
| "ends Digit = one_char is_digit"
| "ends NotDigit = one_char (\<lambda>x. \<not> is_digit x)"
| "ends Bol = (\<lambda>p. if fst p then [p] else [])"
| "ends Eol = (\<lambda>p. if snd p = [] \<or> snd p = [newline] then [p] else [])"
| "ends (Grp r) = ends r"
| "ends (Rep m n r) = rep_ends m n (ends r)"
| "ends (Seq rs) = seq_ends (map ends rs)"
| "ends (Alt rs) = alt_ends (map ends rs)"

text \<open>\<^verbatim>\<open>re.match(pattern, string)\<close>, read for its truth value: is there a match or not.\<close>

definition re_match :: "string \<Rightarrow> string \<Rightarrow> bool outcome" where
  "re_match pattern s =
     obind (re_compile pattern) (\<lambda>r. Returns (ends r (True, s) \<noteq> []))"

section \<open>The linter\<close>

subsection \<open>The tables\<close>

text \<open>
  \<^verbatim>\<open>ABBREVIATIONS\<close> is read from \<^verbatim>\<open>system_abbreviations.json\<close> when the module is
  loaded and never changed afterwards: two lists of approved abbreviations. The file is
  not part of the sources, so the table is a parameter of every function that can see
  the module's globals. \<^verbatim>\<open>FORMAT_MAPPING\<close> is the constant dictionary of the source.
\<close>

record abbreviations =
  LinkedService :: "string list"
  Dataset :: "string list"

definition FORMAT_MAPPING :: "(string \<times> string) list" where
  "FORMAT_MAPPING =
     [(''DelimitedText'', ''CSV''),
      (''AzureSqlTable'', ''TABLE''),
      (''Parquet'', ''PARQUET''),
      (''Json'', ''JSON''),
      (''Excel'', ''EXCEL''),
      (''Avro'', ''AVRO''),
      (''Binary'', ''BIN''),
      (''XML'', ''XML''),
      (''Orc'', ''ORC'')]"

subsection \<open>The evaluators\<close>

definition ls_prefix_violation :: string where
  "ls_prefix_violation = ''Linked Service must start with 'LS_'' @ sq"

definition ls_abbreviation_violation :: "string \<Rightarrow> string" where
  "ls_abbreviation_violation ls_name =
     ''Linked Service '' @ sq @ ls_name @ sq @ '' does not match known prefixes''"

definition lint_linked_service :: "abbreviations \<Rightarrow> string \<Rightarrow> string list" where
  "lint_linked_service abbr ls_name =
     (if \<not> startswith ls_name ''LS_'' then [ls_prefix_violation] else [])
     @ (if \<not> list_ex (startswith ls_name) (LinkedService abbr)
        then [ls_abbreviation_violation ls_name] else [])"

definition ds_prefix_violation :: string where
  "ds_prefix_violation = ''Dataset must start with 'DS_'' @ sq"

definition ds_suffix_violation :: "string \<Rightarrow> string \<Rightarrow> string" where
  "ds_suffix_violation ds_name expected_format =
     ''Dataset '' @ sq @ ds_name @ sq @ '' must end with format suffix '_''
     @ expected_format @ sq"

definition ds_detail_violation :: "string \<Rightarrow> string" where
  "ds_detail_violation detail_part =
     ''Dataset detail part '' @ sq @ detail_part @ sq
     @ '' must be uppercase letters, numbers or underscores only''"

text \<open>
  \<^verbatim>\<open>"_".join(ds_name.split("_")[2:-1])\<close>: the slice \<^verbatim>\<open>[2:-1]\<close> drops the last token
  and then the first two, and is empty when there are fewer than four tokens.
\<close>

definition detail_part :: "string \<Rightarrow> string" where
  "detail_part ds_name = join ''_'' (drop 2 (butlast (split_on CHR ''_'' ds_name)))"

definition detail_pattern :: string where
  "detail_pattern = ''^[A-Z0-9_]+$''"

text \<open>
  The suffix check runs when the format has an entry in \<^verbatim>\<open>FORMAT_MAPPING\<close> and the
  entry is a non-empty string (\<^verbatim>\<open>if expected_format and ...\<close>).
\<close>

definition lint_dataset :: "abbreviations \<Rightarrow> string \<Rightarrow> string \<Rightarrow> string list outcome" where
  "lint_dataset abbr ds_name dataset_type =
     (let errors1 = (if \<not> startswith ds_name ''DS_'' then [ds_prefix_violation] else []);
          errors2 =
            (case map_of FORMAT_MAPPING dataset_type of
               None \<Rightarrow> errors1
             | Some expected_format \<Rightarrow>
                 if expected_format \<noteq> [] \<and> \<not> endswith ds_name (''_'' @ expected_format)
                 then errors1 @ [ds_suffix_violation ds_name expected_format]
                 else errors1)
      in obind (re_match detail_pattern (detail_part ds_name))
           (\<lambda>m. Returns
                  (if \<not> m then errors2 @ [ds_detail_violation (detail_part ds_name)]
                   else errors2)))"

definition master_pattern :: string where
  "master_pattern =
     ''^'' @ [backslash] @ ''d{3}_00_Master(_[A-Za-z0-9_]+)?_[A-Za-z0-9_]+$''"

definition sub_pattern :: string where
  "sub_pattern =
     ''^'' @ [backslash] @ ''d{3}_(0[1-9]|[1-9][0-9])(_[A-Za-z0-9_]+)?_[A-Za-z0-9_]+$''"

definition sub_master_violation :: "string \<Rightarrow> string" where
  "sub_master_violation pipeline_name =
     ''Sub-pipeline '' @ sq @ pipeline_name @ sq
     @ '' should not include 'Master' in its name''"

definition pipeline_convention_violation :: "string \<Rightarrow> string" where
  "pipeline_convention_violation pipeline_name =
     ''Pipeline '' @ sq @ pipeline_name @ sq
     @ '' must follow naming conventions for Master or Sub-pipelines''"

definition lint_pipeline :: "string \<Rightarrow> string list outcome" where
  "lint_pipeline pipeline_name =
     obind (re_match master_pattern pipeline_name)
       (\<lambda>is_master.
          if is_master then Returns []
          else
            obind (re_match sub_pattern pipeline_name)
              (\<lambda>is_sub.
                 if is_sub
                 then Returns
                        (if contains pipeline_name ''Master''
                         then [sub_master_violation pipeline_name] else [])
                 else Returns [pipeline_convention_violation pipeline_name]))"

definition schedule_violation :: "string \<Rightarrow> string" where
  "schedule_violation trigger_name =
     ''Scheduled trigger '' @ sq @ trigger_name @ sq
     @ '' must start with frequency (Daily/Hourly/Weekly/Monthly)''"

definition file_violation :: "string \<Rightarrow> string" where
  "file_violation trigger_name =
     ''File trigger '' @ sq @ trigger_name @ sq @ '' must start with 'File-'' @ sq"

definition not_formatted_violation :: "string \<Rightarrow> string" where
  "not_formatted_violation trigger_name =
     ''Trigger '' @ sq @ trigger_name @ sq @ '' is not properly formatted''"

definition pattern_violation :: "string \<Rightarrow> string \<Rightarrow> string" where
  "pattern_violation trigger_name pattern =
     ''Trigger '' @ sq @ trigger_name @ sq @ '' does not match required pattern ''
     @ sq @ pattern @ sq"

text \<open>The pattern of the f-string: the two tokens are put into it as they are.\<close>

definition trigger_pattern :: "string \<Rightarrow> string \<Rightarrow> string" where
  "trigger_pattern project_name pipeline_name =
     ''^(Daily|Hourly|Weekly|Monthly|File)-'' @ project_name @ ''-'' @ pipeline_name @ ''$''"

text \<open>
  The \<^verbatim>\<open>try\<close> block reads token 1 and the last token of the split name; only an
  \<^verbatim>\<open>IndexError\<close> is caught, and then the evaluator returns at once.
\<close>

definition lint_trigger :: "string \<Rightarrow> string \<Rightarrow> string list outcome" where
  "lint_trigger trigger_name trigger_type =
     (let errors1 =
            (if trigger_type = ''ScheduleTrigger''
                \<and> \<not> list_ex (startswith trigger_name)
                      [''Daily-'', ''Hourly-'', ''Weekly-'', ''Monthly-'']
             then [schedule_violation trigger_name] else []);
          errors2 =
            errors1 @
            (if trigger_type = ''BlobEventsTrigger'' \<and> \<not> startswith trigger_name ''File-''
             then [file_violation trigger_name] else []);
          tokens = split_on CHR ''-'' trigger_name
      in case obind (getitem tokens 1)
                (\<lambda>project_name.
                   obind (getitem tokens (- 1))
                     (\<lambda>pipeline_name. Returns (project_name, pipeline_name))) of
           Raises IndexError \<Rightarrow> Returns (errors2 @ [not_formatted_violation trigger_name])
         | Raises e \<Rightarrow> Raises e
         | Unmodelled \<Rightarrow> Unmodelled
         | Returns (project_name, pipeline_name) \<Rightarrow>
             obind (re_match (trigger_pattern project_name pipeline_name) trigger_name)
               (\<lambda>m. Returns
                      (if \<not> m
                       then errors2 @
                            [pattern_violation trigger_name
                               (trigger_pattern project_name pipeline_name)]
                       else errors2)))"

definition kv_violation :: "string \<Rightarrow> string \<Rightarrow> string" where
  "kv_violation kv_name kv_type =
     ''Key Vault '' @ sq @ kv_name @ sq @ '' type '' @ sq @ kv_type @ sq
     @ '' is invalid. Must be username/password/url''"

definition lint_key_vault :: "string \<Rightarrow> string \<Rightarrow> string list" where
  "lint_key_vault kv_name kv_type =
     (if lower kv_type \<notin> set [''username'', ''password'', ''url'']
      then [kv_violation kv_name kv_type] else [])"

subsection \<open>Documents, the classifier and the dispatcher\<close>

text \<open>
  A resource document is what \<^verbatim>\<open>json.load\<close> returns for a JSON object: a dictionary
  from strings to JSON values, here an association list read with \<^const>\<open>map_of\<close>.
  The payload of a number is never looked at.
\<close>

datatype json =
    JNull
  | JBool bool
  | JNum int
  | JStr string
  | JArr "json list"
  | JObj "(string \<times> json) list"

type_synonym dict = "(string \<times> json) list"

datatype ADFResourceType = PIPELINE | DATASET | LINKED_SERVICE | TRIGGER | UNKNOWN

text \<open>\<^verbatim>\<open>d.get(k, default)\<close> and \<^verbatim>\<open>d[k]\<close> on a dictionary.\<close>

definition dict_get :: "dict \<Rightarrow> string \<Rightarrow> json \<Rightarrow> json" where
  "dict_get d k dflt = (case map_of d k of None \<Rightarrow> dflt | Some v \<Rightarrow> v)"

definition dict_getitem :: "dict \<Rightarrow> string \<Rightarrow> json outcome" where
  "dict_getitem d k = (case map_of d k of None \<Rightarrow> Raises KeyError | Some v \<Rightarrow> Returns v)"

text \<open>
  \<^verbatim>\<open>v[k]\<close> with a string key on any JSON value: a dictionary looks the key up, every
  other value raises \<^verbatim>\<open>TypeError\<close> (strings and lists take integer indices, the rest
  cannot be subscripted).
\<close>

fun py_getitem :: "json \<Rightarrow> string \<Rightarrow> json outcome" where
  "py_getitem (JObj d) k = dict_getitem d k"
| "py_getitem v k = Raises TypeError"

text \<open>
  \<^verbatim>\<open>k in v\<close> with a string \<open>k\<close>: a key of a dictionary, a substring of a string, an
  element of a list; \<^verbatim>\<open>None\<close>, booleans and numbers are not iterable.
\<close>

fun py_in :: "string \<Rightarrow> json \<Rightarrow> bool outcome" where
  "py_in k (JObj d) = Returns (map_of d k \<noteq> None)"
| "py_in k (JStr s) = Returns (contains s k)"
| "py_in k (JArr xs) = Returns (JStr k \<in> set xs)"
| "py_in k v = Raises TypeError"

text \<open>\<^verbatim>\<open>v.lower()\<close>: only strings have the method.\<close>

fun py_lower :: "json \<Rightarrow> string outcome" where
  "py_lower (JStr s) = Returns (lower s)"
| "py_lower v = Raises AttributeError"

text \<open>\<^verbatim>\<open>a in props and b in props\<close>: the second test runs only when the first holds.\<close>

definition both_in :: "string \<Rightarrow> string \<Rightarrow> json \<Rightarrow> bool outcome" where
  "both_in a b props = obind (py_in a props) (\<lambda>x. if x then py_in b props else Returns False)"

definition identify_adf_resource :: "dict \<Rightarrow> ADFResourceType outcome" where
  "identify_adf_resource resource_json =
     obind (py_lower (dict_get resource_json ''type'' (JStr [])))
       (\<lambda>top_type.
          if endswith top_type ''/pipelines'' then Returns PIPELINE
          else if endswith top_type ''/datasets'' then Returns DATASET
          else if endswith top_type ''/linkedservices'' then Returns LINKED_SERVICE
          else if endswith top_type ''/triggers'' then Returns TRIGGER
          else
            (let props = dict_get resource_json ''properties'' (JObj []) in
             obind (py_in ''activities'' props)
               (\<lambda>p. if p then Returns PIPELINE
                  else obind (both_in ''typeProperties'' ''linkedServiceName'' props)
                    (\<lambda>d. if d then Returns DATASET
                       else obind (both_in ''connectVia'' ''type'' props)
                         (\<lambda>l. if l then Returns LINKED_SERVICE
                            else obind (both_in ''pipelines'' ''type'' props)
                              (\<lambda>t. if t then Returns TRIGGER else Returns UNKNOWN))))))"

text \<open>
  The evaluators take strings. A document can hold any JSON value under \<^verbatim>\<open>name\<close> and
  \<^verbatim>\<open>properties.type\<close>; what the evaluators do with a value that is no string is left
  unmodelled.
\<close>

fun as_str :: "json \<Rightarrow> string outcome" where
  "as_str (JStr s) = Returns s"
| "as_str v = Unmodelled"

definition unknown_violation :: "string \<Rightarrow> string" where
  "unknown_violation name = ''Unknown resource type for '' @ name"

text \<open>
  The dispatcher. Python evaluates the arguments of a call from left to right before
  the call: \<^verbatim>\<open>resource_json["name"]\<close> first, then \<^verbatim>\<open>resource_json["properties"]\<close> and
  its \<^verbatim>\<open>["type"]\<close>. The \<^verbatim>\<open>print\<close> of the resource type writes to standard output and
  is left out.
\<close>

definition lint_resource :: "abbreviations \<Rightarrow> dict \<Rightarrow> string list outcome" where
  "lint_resource abbr resource_json =
     obind (identify_adf_resource resource_json)
       (\<lambda>resource_type.
          case resource_type of
            PIPELINE \<Rightarrow>
              obind (dict_getitem resource_json ''name'')
                (\<lambda>n. obind (as_str n) lint_pipeline)
          | DATASET \<Rightarrow>
              obind (dict_getitem resource_json ''name'')
                (\<lambda>n. obind (dict_getitem resource_json ''properties'')
                   (\<lambda>p. obind (py_getitem p ''type'')
                      (\<lambda>t. obind (as_str n)
                         (\<lambda>ds_name. obind (as_str t) (lint_dataset abbr ds_name)))))
          | LINKED_SERVICE \<Rightarrow>
              obind (dict_getitem resource_json ''name'')
                (\<lambda>n. obind (as_str n)
                   (\<lambda>ls_name. Returns (lint_linked_service abbr ls_name)))
          | TRIGGER \<Rightarrow>
              obind (dict_getitem resource_json ''name'')
                (\<lambda>n. obind (dict_getitem resource_json ''properties'')
                   (\<lambda>p. obind (py_getitem p ''type'')
                      (\<lambda>t. obind (as_str n)
                         (\<lambda>trigger_name. obind (as_str t) (lint_trigger trigger_name)))))
          | UNKNOWN \<Rightarrow>
              obind (as_str (dict_get resource_json ''name'' (JStr ''N/A'')))
                (\<lambda>name. Returns [unknown_violation name]))"

section \<open>Properties\<close>

subsection \<open>Linked services\<close>

text \<open>
  Claim C1 says that \<^verbatim>\<open>LS_ADLS_LZ_ONPREMIR\<close> has no violation whenever \<^verbatim>\<open>ADLS\<close> is in
  the LinkedService abbreviation set. The evaluator tests whether a member of the set is
  a prefix of the whole name, and the name starts with \<^verbatim>\<open>LS_\<close>, not with \<^verbatim>\<open>ADLS\<close>:
  with the set \<^verbatim>\<open>{ADLS}\<close> the abbreviation violation is returned, and with the set
  \<^verbatim>\<open>{LS_}\<close>, which does not hold \<^verbatim>\<open>ADLS\<close>, no violation is returned.
\<close>

theorem lint_linked_service_adls_counterexample:
  "''ADLS'' \<in> set (LinkedService \<lparr>LinkedService = [''ADLS''], Dataset = []\<rparr>)
   \<and> lint_linked_service \<lparr>LinkedService = [''ADLS''], Dataset = []\<rparr> ''LS_ADLS_LZ_ONPREMIR''
       = [ls_abbreviation_violation ''LS_ADLS_LZ_ONPREMIR'']
   \<and> ''ADLS'' \<notin> set (LinkedService \<lparr>LinkedService = [''LS_''], Dataset = []\<rparr>)
   \<and> lint_linked_service \<lparr>LinkedService = [''LS_''], Dataset = []\<rparr> ''LS_ADLS_LZ_ONPREMIR''
       = []"
  by (simp add: lint_linked_service_def)

text \<open>
  Claim C1, amended: on \<^verbatim>\<open>LS_ADLS_LZ_ONPREMIR\<close> the evaluator returns no violation
  exactly when some member of the LinkedService set is a prefix of the name, and
  otherwise exactly one violation, the abbreviation violation, which is not the prefix
  violation.
\<close>

theorem lint_linked_service_known_prefix:
  "lint_linked_service abbr ''LS_ADLS_LZ_ONPREMIR'' =
     (if list_ex (startswith ''LS_ADLS_LZ_ONPREMIR'') (LinkedService abbr) then []
      else [ls_abbreviation_violation ''LS_ADLS_LZ_ONPREMIR''])
   \<and> ls_abbreviation_violation ''LS_ADLS_LZ_ONPREMIR'' \<noteq> ls_prefix_violation"
  by (simp add: lint_linked_service_def ls_abbreviation_violation_def ls_prefix_violation_def)

subsection \<open>Datasets\<close>

text \<open>
  Claim C8: \<^verbatim>\<open>DS_SQL_CUSTOMERS_CSV\<close> with format \<^verbatim>\<open>DelimitedText\<close> has no violation;
  \<^verbatim>\<open>ds_sql_customers_csv\<close> with the same format has the prefix violation and the
  detail violation (and, between them, the suffix violation).
\<close>

theorem lint_dataset_examples:
  "lint_dataset abbr ''DS_SQL_CUSTOMERS_CSV'' ''DelimitedText'' = Returns []
   \<and> lint_dataset abbr ''ds_sql_customers_csv'' ''DelimitedText'' =
       Returns [ds_prefix_violation,
                ds_suffix_violation ''ds_sql_customers_csv'' ''CSV'',
                ds_detail_violation ''customers'']"
  by code_simp

text \<open>
  The dataset evaluator does not read the abbreviation table at all, and the linked
  service evaluator reads its LinkedService entry only.
\<close>

lemma lint_dataset_table: "lint_dataset a = lint_dataset b"
  by (intro ext) (simp add: lint_dataset_def)

lemma lint_linked_service_table:
  "LinkedService a = LinkedService b \<Longrightarrow> lint_linked_service a = lint_linked_service b"
  by (intro ext) (simp add: lint_linked_service_def)

lemma lint_resource_table:
  assumes "LinkedService a = LinkedService b"
  shows "lint_resource a doc = lint_resource b doc"
  unfolding lint_resource_def
  by (simp only: lint_dataset_table [of a b] lint_linked_service_table [OF assms])

text \<open>
  Claim C10: the result of the dataset evaluator does not depend on the Dataset entry of
  the abbreviation table, and neither does the result of the dispatcher on any document:
  no evaluator reads that entry.
\<close>

theorem dataset_abbreviations_never_consulted:
  "lint_dataset (abbr\<lparr>Dataset := d1\<rparr>) ds_name dataset_type
     = lint_dataset (abbr\<lparr>Dataset := d2\<rparr>) ds_name dataset_type
   \<and> lint_resource (abbr\<lparr>Dataset := d1\<rparr>) doc = lint_resource (abbr\<lparr>Dataset := d2\<rparr>) doc"
proof
  show "lint_dataset (abbr\<lparr>Dataset := d1\<rparr>) ds_name dataset_type
     = lint_dataset (abbr\<lparr>Dataset := d2\<rparr>) ds_name dataset_type"
    by (simp add: lint_dataset_def)
  show "lint_resource (abbr\<lparr>Dataset := d1\<rparr>) doc = lint_resource (abbr\<lparr>Dataset := d2\<rparr>) doc"
    by (rule lint_resource_table) simp
qed

subsection \<open>Triggers\<close>

text \<open>
  Claim C3 says that \<^verbatim>\<open>Weekly-hilan\<close> gets the "not properly formatted" violation. The
  name splits into two tokens, so token 1 exists and no \<^verbatim>\<open>IndexError\<close> is raised.
\<close>

theorem lint_trigger_weekly_hilan_counterexample:
  "split_on CHR ''-'' ''Weekly-hilan'' = [''Weekly'', ''hilan'']
   \<and> lint_trigger ''Weekly-hilan'' ''ScheduleTrigger''
       \<noteq> Returns [not_formatted_violation ''Weekly-hilan'']"
  by code_simp

text \<open>
  Claim C3, amended: \<^verbatim>\<open>Daily-SAPBW-hilan\<close> with type \<^verbatim>\<open>ScheduleTrigger\<close> has no
  violation; \<^verbatim>\<open>Weekly-hilan\<close> has exactly one, the violation of the pattern rebuilt from
  its tokens (project and pipeline are both \<^verbatim>\<open>hilan\<close>).
\<close>

theorem lint_trigger_examples:
  "lint_trigger ''Daily-SAPBW-hilan'' ''ScheduleTrigger'' = Returns []
   \<and> lint_trigger ''Weekly-hilan'' ''ScheduleTrigger'' =
       Returns [pattern_violation ''Weekly-hilan'' (trigger_pattern ''hilan'' ''hilan'')]"
  by code_simp

text \<open>
  Claim C9: the trigger evaluator raises on some names. The tokens go into the pattern
  unescaped: the project token \<^verbatim>\<open>(\<close> opens a group that is never closed, and the project
  token \<^verbatim>\<open>a+*\<close> repeats a repeat; in both cases compiling the pattern fails and the
  evaluator raises instead of returning a list.
\<close>

theorem lint_trigger_raises_on_metacharacters:
  "split_on CHR ''-'' ''Daily-(-x'' = [''Daily'', ''('', ''x'']
   \<and> re_compile (trigger_pattern ''('' ''x'') = Raises ReError
   \<and> lint_trigger ''Daily-(-x'' ''ScheduleTrigger'' = Raises ReError
   \<and> lint_trigger ''Daily-a+*-x'' ''ScheduleTrigger'' = Raises ReError"
  by code_simp

subsection \<open>Short dataset names\<close>

lemma short_detail:
  "length (split_on CHR ''_'' n) < 4 \<Longrightarrow> detail_part n = []"
  by (simp add: detail_part_def)

lemma empty_detail_no_match: "re_match detail_pattern [] = Returns False"
  by code_simp

text \<open>
  Claim C7: a dataset name with fewer than four tokens between underscores has the empty
  detail part; the empty string does not match \<^verbatim>\<open>^[A-Z0-9_]+$\<close>; the evaluator returns
  (it does not raise) and the detail violation, for the empty detail part, is among its
  results.
\<close>

theorem lint_dataset_short_name:
  assumes "length (split_on CHR ''_'' ds_name) < 4"
  shows "detail_part ds_name = []
    \<and> re_match detail_pattern (detail_part ds_name) = Returns False
    \<and> (\<exists>vs. lint_dataset abbr ds_name dataset_type = Returns vs
           \<and> ds_detail_violation [] \<in> set vs)"
  using short_detail [OF assms] empty_detail_no_match
  by (simp add: lint_dataset_def Let_def split: option.splits)

theorem lint_dataset_short_name_witness:
  "length (split_on CHR ''_'' ''DS_A_CSV'') < 4
   \<and> detail_part ''DS_A_CSV'' = []
   \<and> re_match detail_pattern (detail_part ''DS_A_CSV'') = Returns False
   \<and> (\<exists>vs. lint_dataset \<lparr>LinkedService = [], Dataset = []\<rparr> ''DS_A_CSV'' ''DelimitedText''
              = Returns vs
           \<and> ds_detail_violation [] \<in> set vs)"
proof -
  have h: "length (split_on CHR ''_'' ''DS_A_CSV'') < 4" by simp
  show ?thesis
    using h lint_dataset_short_name [OF h,
        of "\<lparr>LinkedService = [], Dataset = []\<rparr>" "''DelimitedText''"]
    by blast
qed

subsection \<open>Pipelines\<close>

text \<open>
  What the two patterns of the pipeline evaluator compile to. Both end in an optional
  segment and a mandatory segment of letters, digits and underscores.
\<close>

definition name_set :: regex where
  "name_set = InSet False [CRange CHR ''A'' CHR ''Z'', CRange CHR ''a'' CHR ''z'',
                           CRange CHR ''0'' CHR ''9'', CChar CHR ''_'']"

definition name_tail :: "regex list" where
  "name_tail =
     [Rep 0 (Some 1) (Grp (Seq [Lit CHR ''_'', Rep 1 None name_set])),
      Lit CHR ''_'', Rep 1 None name_set, Eol]"

definition master_regex :: regex where
  "master_regex =
     Seq ([Bol, Rep 3 (Some 3) Digit, Lit CHR ''_'', Lit CHR ''0'', Lit CHR ''0'',
           Lit CHR ''_'', Lit CHR ''M'', Lit CHR ''a'', Lit CHR ''s'', Lit CHR ''t'',
           Lit CHR ''e'', Lit CHR ''r''] @ name_tail)"

definition sub_regex :: regex where
  "sub_regex =
     Seq ([Bol, Rep 3 (Some 3) Digit, Lit CHR ''_'',
           Grp (Alt [Seq [Lit CHR ''0'', InSet False [CRange CHR ''1'' CHR ''9'']],
                     Seq [InSet False [CRange CHR ''1'' CHR ''9''],
                          InSet False [CRange CHR ''0'' CHR ''9'']]])] @ name_tail)"

text \<open>\<open>matches\<close> says that \<^verbatim>\<open>re.match\<close> returned a match.\<close>

definition matches :: "string \<Rightarrow> string \<Rightarrow> bool" where
  "matches pattern s = (re_match pattern s = Returns True)"

lemma master_pattern_regex: "re_compile master_pattern = Returns master_regex"
  by code_simp

lemma sub_pattern_regex: "re_compile sub_pattern = Returns sub_regex"
  by code_simp

lemma master_re_match: "re_match master_pattern s = Returns (matches master_pattern s)"
  by (simp add: matches_def re_match_def master_pattern_regex)

lemma sub_re_match: "re_match sub_pattern s = Returns (matches sub_pattern s)"
  by (simp add: matches_def re_match_def sub_pattern_regex)

lemma lint_pipeline_cases:
  "lint_pipeline n =
     Returns (if matches master_pattern n then []
              else if matches sub_pattern n
                then (if contains n ''Master'' then [sub_master_violation n] else [])
              else [pipeline_convention_violation n])"
  by (simp add: lint_pipeline_def master_re_match sub_re_match)

text \<open>
  No name matches both patterns: after three digits and an underscore the master
  pattern reads \<^verbatim>\<open>00\<close>, and the sub pattern reads two digits that are not \<^verbatim>\<open>00\<close>.
\<close>

lemma step_nil: "step f [] = []"
  by (simp add: step_def)

lemma step_one_char:
  "step (one_char P) [(b, s)] =
     (case s of [] \<Rightarrow> [] | x # xs \<Rightarrow> if P x then [(False, xs)] else [])"
  by (simp add: step_def one_char_def split: list.splits)

lemma three_digits:
  assumes "rep_ends 3 (Some 3) (one_char is_digit) (b, s) \<noteq> []"
  shows "\<exists>x y z r. s = x # y # z # r
     \<and> rep_ends 3 (Some 3) (one_char is_digit) (b, s) = [(False, r)]"
proof -
  let ?f = "one_char is_digit"
  have e: "rep_ends 3 (Some 3) ?f (b, s) = step ?f (step ?f (step ?f [(b, s)]))"
    by (simp add: rep_ends_def numeral_3_eq_3)
  show ?thesis
  proof (cases s)
    case Nil
    with assms e show ?thesis by (simp add: step_one_char step_nil)
  next
    case s: (Cons x s1)
    show ?thesis
    proof (cases s1)
      case Nil
      with assms e s show ?thesis by (simp add: step_one_char step_nil split: if_splits)
    next
      case s1: (Cons y s2)
      show ?thesis
      proof (cases s2)
        case Nil
        with assms e s s1 show ?thesis
          by (simp add: step_one_char step_nil split: if_splits)
      next
        case s2: (Cons z r)
        with assms e s s1 show ?thesis
          by (simp add: step_one_char step_nil split: if_splits)
      qed
    qed
  qed
qed

lemma seq_ends_lit_nonempty:
  "seq_ends (ends (Lit c) # fs) (b, s) \<noteq> [] \<Longrightarrow> \<exists>r. s = c # r \<and>
     seq_ends (ends (Lit c) # fs) (b, s) = seq_ends fs (False, r)"
  by (cases s) (auto simp: one_char_def split: if_splits)

lemma master_shape:
  assumes "ends master_regex (True, s) \<noteq> []"
  shows "\<exists>x y z r. s = x # y # z # CHR ''_'' # CHR ''0'' # CHR ''0'' # r"
proof -
  let ?d = "rep_ends 3 (Some 3) (one_char is_digit) (True, s)"
  let ?fs = "map ends ([Lit CHR ''_'', Lit CHR ''M'', Lit CHR ''a'', Lit CHR ''s'',
      Lit CHR ''t'', Lit CHR ''e'', Lit CHR ''r''] @ name_tail)"
  have "?d \<noteq> []"
    using assms by (auto simp: master_regex_def)
  then obtain x y z r where s: "s = x # y # z # r" and d: "?d = [(False, r)]"
    using three_digits by blast
  from assms have a1: "seq_ends (ends (Lit CHR ''_'') # ends (Lit CHR ''0'')
      # ends (Lit CHR ''0'') # ?fs) (False, r) \<noteq> []"
    unfolding master_regex_def by (simp add: d)
  then obtain r1 where r1: "r = CHR ''_'' # r1"
    and a2: "seq_ends (ends (Lit CHR ''0'') # ends (Lit CHR ''0'') # ?fs) (False, r1) \<noteq> []"
    using seq_ends_lit_nonempty [of "CHR ''_''" _ False r] by metis
  then obtain r2 where r2: "r1 = CHR ''0'' # r2"
    and a3: "seq_ends (ends (Lit CHR ''0'') # ?fs) (False, r2) \<noteq> []"
    using seq_ends_lit_nonempty [of "CHR ''0''" _ False r1] by metis
  then obtain r3 where r3: "r2 = CHR ''0'' # r3"
    using seq_ends_lit_nonempty [of "CHR ''0''" _ False r2] by metis
  from s r1 r2 r3 show ?thesis by blast
qed

lemma sub_shape:
  assumes "ends sub_regex (True, s) \<noteq> []"
  shows "\<exists>x y z d e r. s = x # y # z # CHR ''_'' # d # e # r
     \<and> (d, e) \<noteq> (CHR ''0'', CHR ''0'')"
proof -
  let ?d = "rep_ends 3 (Some 3) (one_char is_digit) (True, s)"
  let ?g = "Grp (Alt [Seq [Lit CHR ''0'', InSet False [CRange CHR ''1'' CHR ''9'']],
                     Seq [InSet False [CRange CHR ''1'' CHR ''9''],
                          InSet False [CRange CHR ''0'' CHR ''9'']]])"
  have "?d \<noteq> []"
    using assms by (auto simp: sub_regex_def)
  then obtain x y z r where s: "s = x # y # z # r" and d: "?d = [(False, r)]"
    using three_digits by blast
  from assms have a1: "seq_ends (ends (Lit CHR ''_'') # ends ?g # map ends name_tail)
      (False, r) \<noteq> []"
    unfolding sub_regex_def by (simp add: d)
  then obtain r1 where r1: "r = CHR ''_'' # r1"
    and a2: "seq_ends (ends ?g # map ends name_tail) (False, r1) \<noteq> []"
    using seq_ends_lit_nonempty [of "CHR ''_''" _ False r] by metis
  from a2 have "ends ?g (False, r1) \<noteq> []" by auto
  then have "\<exists>d e r'. r1 = d # e # r' \<and> (d, e) \<noteq> (CHR ''0'', CHR ''0'')"
    by (auto simp: alt_ends_def one_char_def split: list.splits if_splits)
  with s r1 show ?thesis by blast
qed

lemma master_and_sub_disjoint:
  "\<not> (matches master_pattern s \<and> matches sub_pattern s)"
proof
  assume "matches master_pattern s \<and> matches sub_pattern s"
  then have "ends master_regex (True, s) \<noteq> []" "ends sub_regex (True, s) \<noteq> []"
    by (simp_all add: matches_def re_match_def master_pattern_regex sub_pattern_regex)
  then show False using master_shape [of s] sub_shape [of s] by auto
qed

text \<open>
  Claim C5: the pipeline evaluator returns and gives at most one violation. When the
  name matches the master or the sub pattern, a violation is returned only when the name
  matches the sub pattern and contains \<^verbatim>\<open>Master\<close>, and in that case it is returned; when
  the name matches neither pattern, exactly one violation is returned.
\<close>

theorem lint_pipeline_zero_or_one:
  "(\<exists>vs. lint_pipeline n = Returns vs \<and> length vs \<le> 1)
   \<and> (matches master_pattern n \<or> matches sub_pattern n \<longrightarrow>
        lint_pipeline n =
          Returns (if matches sub_pattern n \<and> contains n ''Master''
                   then [sub_master_violation n] else []))
   \<and> (\<not> matches master_pattern n \<and> \<not> matches sub_pattern n \<longrightarrow>
        lint_pipeline n = Returns [pipeline_convention_violation n])"
  using master_and_sub_disjoint [of n] by (auto simp: lint_pipeline_cases)

theorem lint_pipeline_zero_or_one_witness:
  "matches sub_pattern ''001_02_Master_Hilan''
   \<and> contains ''001_02_Master_Hilan'' ''Master''
   \<and> lint_pipeline ''001_02_Master_Hilan''
       = Returns [sub_master_violation ''001_02_Master_Hilan'']
   \<and> matches master_pattern ''001_00_Master_Hilan''
   \<and> lint_pipeline ''001_00_Master_Hilan'' = Returns []
   \<and> \<not> matches master_pattern ''Hilan'' \<and> \<not> matches sub_pattern ''Hilan''
   \<and> lint_pipeline ''Hilan'' = Returns [pipeline_convention_violation ''Hilan'']"
proof -
  have s: "matches sub_pattern ''001_02_Master_Hilan''" by code_simp
  have c: "contains ''001_02_Master_Hilan'' ''Master''" by code_simp
  have a: "matches master_pattern ''001_00_Master_Hilan''" by code_simp
  have m: "\<not> matches master_pattern ''Hilan''" by code_simp
  have n: "\<not> matches sub_pattern ''Hilan''" by code_simp
  have d: "\<not> matches sub_pattern ''001_00_Master_Hilan''"
    using a master_and_sub_disjoint [of "''001_00_Master_Hilan''"] by blast
  show ?thesis
    using s c a m n d lint_pipeline_zero_or_one [of "''001_02_Master_Hilan''"]
      lint_pipeline_zero_or_one [of "''001_00_Master_Hilan''"]
      lint_pipeline_zero_or_one [of "''Hilan''"]
    by simp
qed

subsection \<open>The pattern check of the trigger evaluator\<close>

text \<open>
  Claim C4 says that the pattern rebuilt from the tokens always matches a name of exactly
  three tokens. The pattern also fixes the first token, and it reads the other two as
  regular expressions: \<^verbatim>\<open>Foo-a-b\<close> has three tokens and fails the check, and so does
  \<^verbatim>\<open>Daily-a+b-c\<close>, whose project token \<^verbatim>\<open>a+b\<close> stands for \<^verbatim>\<open>ab\<close>, \<^verbatim>\<open>aab\<close>, ...
\<close>

theorem trigger_pattern_check_counterexample:
  "split_on CHR ''-'' ''Foo-a-b'' = [''Foo'', ''a'', ''b'']
   \<and> re_match (trigger_pattern ''a'' ''b'') ''Foo-a-b'' = Returns False
   \<and> lint_trigger ''Foo-a-b'' ''Other''
       = Returns [pattern_violation ''Foo-a-b'' (trigger_pattern ''a'' ''b'')]
   \<and> split_on CHR ''-'' ''Daily-a+b-c'' = [''Daily'', ''a+b'', ''c'']
   \<and> re_match (trigger_pattern ''a+b'' ''c'') ''Daily-a+b-c'' = Returns False"
  by code_simp

text \<open>
  Tokens without a character that is special in a pattern are read as themselves: the
  pattern compiles to the sequence of its characters, after the group of frequencies.
\<close>

definition plain_token :: "string \<Rightarrow> bool" where
  "plain_token s = list_all (\<lambda>c. c \<notin> set special_chars \<and> c \<noteq> CHR ''-'') s"

definition frequencies :: "string list" where
  "frequencies = [''Daily'', ''Hourly'', ''Weekly'', ''Monthly'', ''File'']"

lemma split_on_no_sep: "c \<notin> set xs \<Longrightarrow> split_on c xs = [xs]"
  by (induction xs) auto

lemma split_on_append:
  "c \<notin> set xs \<Longrightarrow> split_on c (xs @ c # ys) = xs # split_on c ys"
  by (induction xs) auto

lemma lex1_plain:
  "c \<notin> set special_chars \<Longrightarrow> lex1 c cs = Returns (TAtom (Lit c), cs)"
  by (simp add: lex1_def special_chars_def)

lemma lex_plain:
  "\<forall>c \<in> set xs. c \<notin> set special_chars \<Longrightarrow>
     lex_pattern (xs @ rest) = obind (lex_pattern rest) (\<lambda>ts. Returns (map (\<lambda>c. TAtom (Lit c)) xs @ ts))"
proof (induction xs)
  case Nil
  show ?case by (cases "lex_pattern rest") simp_all
next
  case (Cons x xs)
  then have "lex1 x (xs @ rest) = Returns (TAtom (Lit x), xs @ rest)"
    by (simp add: lex1_plain)
  with Cons show ?case by (cases "lex_pattern rest") simp_all
qed

lemma parse_lits:
  "parse_tokens (map (\<lambda>c. TAtom (Lit c)) xs @ ts) fr st =
     parse_tokens ts (fst fr, rev (map Lit xs) @ snd fr) st"
  by (induction xs arbitrary: fr) simp_all

lemma concat_map_concat:
  "concat (map (\<lambda>q. concat (map g (f q))) xs) = concat (map g (concat (map f xs)))"
  by (induction xs) simp_all

lemma seq_ends_append:
  "seq_ends (fs @ gs) p = concat (map (seq_ends gs) (seq_ends fs p))"
proof (induction fs arbitrary: p)
  case Nil
  show ?case by simp
next
  case (Cons f fs)
  have "seq_ends (fs @ gs) = (\<lambda>q. concat (map (seq_ends gs) (seq_ends fs q)))"
    by (rule ext) (rule Cons)
  then show ?case by (simp add: concat_map_concat)
qed

lemma seq_ends_lits:
  "seq_ends (map ends (map Lit xs)) (b, xs @ rest) = [(b \<and> xs = [], rest)]"
proof (induction xs arbitrary: b)
  case Nil
  show ?case by simp
next
  case (Cons x xs)
  show ?case using Cons [of False] by (simp add: one_char_def)
qed

definition frequency_tokens :: "token list" where
  "frequency_tokens =
     [TAtom Bol, TOpen] @ map (\<lambda>c. TAtom (Lit c)) ''Daily'' @ [TBar]
     @ map (\<lambda>c. TAtom (Lit c)) ''Hourly'' @ [TBar]
     @ map (\<lambda>c. TAtom (Lit c)) ''Weekly'' @ [TBar]
     @ map (\<lambda>c. TAtom (Lit c)) ''Monthly'' @ [TBar]
     @ map (\<lambda>c. TAtom (Lit c)) ''File'' @ [TClose, TAtom (Lit CHR ''-'')]"

definition frequency_group :: regex where
  "frequency_group =
     Grp (Alt [Seq (map Lit ''Daily''), Seq (map Lit ''Hourly''), Seq (map Lit ''Weekly''),
               Seq (map Lit ''Monthly''), Seq (map Lit ''File'')])"

lemma lex_frequency:
  "lex_pattern (''^(Daily|Hourly|Weekly|Monthly|File)-'' @ rest) =
     obind (lex_pattern rest) (\<lambda>ts. Returns (frequency_tokens @ ts))"
  by (cases "lex_pattern rest") (simp_all add: lex1_def frequency_tokens_def)

lemma parse_frequency:
  "parse_tokens (frequency_tokens @ ts) ([], []) [] =
     parse_tokens ts ([], [Lit CHR ''-'', frequency_group, Bol]) []"
  by (simp add: frequency_tokens_def frequency_group_def close_frame_def)

lemma ends_frequency:
  "first \<in> set [''Daily'', ''Hourly'', ''Weekly'', ''Monthly'', ''File''] \<Longrightarrow>
     ends frequency_group (b, first @ rest) = [(False, rest)]"
  by (auto simp: frequency_group_def alt_ends_def one_char_def)


lemma trigger_pattern_compiles:
  assumes "\<forall>c \<in> set (project @ pipeline). c \<notin> set special_chars"
  shows "re_compile (trigger_pattern project pipeline) =
     Returns (Seq ([Bol, frequency_group, Lit CHR ''-''] @ map Lit project
                   @ [Lit CHR ''-''] @ map Lit pipeline @ [Eol]))"
proof -
  let ?lit = "\<lambda>c. TAtom (Lit c)"
  have p: "\<forall>c \<in> set project. c \<notin> set special_chars"
    and q: "\<forall>c \<in> set pipeline. c \<notin> set special_chars"
    using assms by auto
  have d: "\<forall>c \<in> set ''-''. c \<notin> set special_chars"
    by (simp add: special_chars_def)
  have l3: "lex_pattern ''$'' = Returns [TAtom Eol]" by (simp add: lex1_def)
  have l2: "lex_pattern (pipeline @ ''$'') = Returns (map ?lit pipeline @ [TAtom Eol])"
    by (simp only: lex_plain [OF q] l3 obind.simps)
  have l1: "lex_pattern (''-'' @ pipeline @ ''$'') =
      Returns (map ?lit ''-'' @ map ?lit pipeline @ [TAtom Eol])"
    by (simp only: lex_plain [OF d] l2 obind.simps)
  have l0: "lex_pattern (project @ ''-'' @ pipeline @ ''$'') =
      Returns (map ?lit project @ map ?lit ''-'' @ map ?lit pipeline @ [TAtom Eol])"
    by (simp only: lex_plain [OF p] l1 obind.simps)
  have l: "lex_pattern (trigger_pattern project pipeline) =
      Returns (frequency_tokens @ map ?lit project @ map ?lit ''-''
               @ map ?lit pipeline @ [TAtom Eol])"
    unfolding trigger_pattern_def by (simp only: lex_frequency l0 obind.simps)
  show ?thesis
    unfolding re_compile_def l obind.simps parse_frequency parse_lits
    by (simp add: close_frame_def)
qed

lemma trigger_pattern_matches:
  assumes "first \<in> set [''Daily'', ''Hourly'', ''Weekly'', ''Monthly'', ''File'']"
  shows "ends (Seq ([Bol, frequency_group, Lit CHR ''-''] @ map Lit project
                   @ [Lit CHR ''-''] @ map Lit pipeline @ [Eol]))
           (True, first @ ''-'' @ project @ ''-'' @ pipeline) = [(False, [])]"
proof -
  have a: "seq_ends (map ends (map Lit pipeline @ [Eol])) (False, pipeline) = [(False, [])]"
    using seq_ends_lits [of pipeline False "[]"] by (simp add: seq_ends_append)
  have b: "seq_ends (map ends (map Lit project @ [Lit CHR ''-''] @ map Lit pipeline @ [Eol]))
             (False, project @ ''-'' @ pipeline) = [(False, [])]"
    using seq_ends_lits [of project False "''-'' @ pipeline"] a
    by (simp add: seq_ends_append one_char_def)
  show ?thesis
    using ends_frequency [OF assms, of True "''-'' @ project @ ''-'' @ pipeline"] b
    by (simp add: one_char_def)
qed

lemma frequency_no_hyphen:
  "first \<in> set frequencies \<Longrightarrow> CHR ''-'' \<notin> set first"
  by (auto simp: frequencies_def)

lemma three_tokens:
  assumes "first \<in> set frequencies" "plain_token project" "plain_token pipeline"
  shows "split_on CHR ''-'' (first @ ''-'' @ project @ ''-'' @ pipeline)
         = [first, project, pipeline]"
proof -
  have p: "CHR ''-'' \<notin> set project" and q: "CHR ''-'' \<notin> set pipeline"
    using assms(2,3) by (auto simp: plain_token_def list_all_iff)
  have "split_on CHR ''-'' (first @ CHR ''-'' # project @ CHR ''-'' # pipeline)
        = first # split_on CHR ''-'' (project @ CHR ''-'' # pipeline)"
    by (rule split_on_append [OF frequency_no_hyphen [OF assms(1)]])
  also have "split_on CHR ''-'' (project @ CHR ''-'' # pipeline)
        = project # split_on CHR ''-'' pipeline"
    by (rule split_on_append [OF p])
  also have "split_on CHR ''-'' pipeline = [pipeline]"
    by (rule split_on_no_sep [OF q])
  finally show ?thesis by simp
qed

lemma plain_trigger_match:
  assumes "first \<in> set frequencies" "plain_token project" "plain_token pipeline"
  shows "re_match (trigger_pattern project pipeline)
           (first @ ''-'' @ project @ ''-'' @ pipeline) = Returns True"
proof -
  have s: "\<forall>c \<in> set (project @ pipeline). c \<notin> set special_chars"
    using assms(2,3) by (auto simp: plain_token_def list_all_iff)
  have f: "first \<in> set [''Daily'', ''Hourly'', ''Weekly'', ''Monthly'', ''File'']"
    using assms(1) by (simp add: frequencies_def)
  show ?thesis
    unfolding re_match_def trigger_pattern_compiles [OF s] obind.simps
      trigger_pattern_matches [OF f]
    by simp
qed

lemma frequency_prefixes:
  assumes "first \<in> set frequencies"
  shows "list_ex (startswith (first @ ''-'' @ rest))
           [''Daily-'', ''Hourly-'', ''Weekly-'', ''Monthly-''] = (first \<noteq> ''File'')"
    and "startswith (first @ ''-'' @ rest) ''File-'' = (first = ''File'')"
  using assms by (auto simp: frequencies_def)

text \<open>
  Claim C4, amended: when the first token is one of \<^verbatim>\<open>Daily\<close>, \<^verbatim>\<open>Hourly\<close>,
  \<^verbatim>\<open>Weekly\<close>, \<^verbatim>\<open>Monthly\<close>, \<^verbatim>\<open>File\<close> and the project and pipeline tokens hold no
  hyphen and no character that is special in a pattern, the name has exactly three
  tokens, the rebuilt pattern matches it, and the evaluator returns only what the checks
  on the frequency prefix give.
\<close>

theorem trigger_pattern_check_passes:
  assumes "first \<in> set frequencies" "plain_token project" "plain_token pipeline"
  shows "split_on CHR ''-'' (first @ ''-'' @ project @ ''-'' @ pipeline)
           = [first, project, pipeline]
    \<and> re_match (trigger_pattern project pipeline)
        (first @ ''-'' @ project @ ''-'' @ pipeline) = Returns True
    \<and> lint_trigger (first @ ''-'' @ project @ ''-'' @ pipeline) trigger_type =
        Returns
          ((if trigger_type = ''ScheduleTrigger'' \<and> first = ''File''
            then [schedule_violation (first @ ''-'' @ project @ ''-'' @ pipeline)] else [])
           @ (if trigger_type = ''BlobEventsTrigger'' \<and> first \<noteq> ''File''
              then [file_violation (first @ ''-'' @ project @ ''-'' @ pipeline)] else []))"
proof -
  let ?name = "first @ ''-'' @ project @ ''-'' @ pipeline"
  have t: "split_on CHR ''-'' ?name = [first, project, pipeline]"
    by (rule three_tokens [OF assms])
  have m: "re_match (trigger_pattern project pipeline) ?name = Returns True"
    by (rule plain_trigger_match [OF assms])
  have g1: "getitem [first, project, pipeline] 1 = Returns project"
    by (simp add: getitem_def)
  have g2: "getitem [first, project, pipeline] (- 1) = Returns pipeline"
    by (simp add: getitem_def)
  have l: "lint_trigger ?name trigger_type =
        Returns
          ((if trigger_type = ''ScheduleTrigger'' \<and> first = ''File''
            then [schedule_violation ?name] else [])
           @ (if trigger_type = ''BlobEventsTrigger'' \<and> first \<noteq> ''File''
              then [file_violation ?name] else []))"
  proof -
    have "lint_trigger ?name trigger_type =
        Returns
          ((if trigger_type = ''ScheduleTrigger''
               \<and> \<not> list_ex (startswith ?name)
                     [''Daily-'', ''Hourly-'', ''Weekly-'', ''Monthly-'']
            then [schedule_violation ?name] else [])
           @ (if trigger_type = ''BlobEventsTrigger'' \<and> \<not> startswith ?name ''File-''
              then [file_violation ?name] else []))"
      unfolding lint_trigger_def Let_def t g1 g2 obind.simps
      by (simp only: outcome.case prod.case m obind.simps if_False not_True_eq_False)
    then show ?thesis
      by (simp only: frequency_prefixes [OF assms(1)] not_not)
  qed
  from t m l show ?thesis by blast
qed

theorem trigger_pattern_check_passes_witness:
  "''Daily'' \<in> set frequencies \<and> plain_token ''SAPBW'' \<and> plain_token ''hilan''
   \<and> split_on CHR ''-'' ''Daily-SAPBW-hilan'' = [''Daily'', ''SAPBW'', ''hilan'']
   \<and> re_match (trigger_pattern ''SAPBW'' ''hilan'') ''Daily-SAPBW-hilan'' = Returns True
   \<and> lint_trigger ''Daily-SAPBW-hilan'' ''ScheduleTrigger'' = Returns []"
proof -
  have f: "''Daily'' \<in> set frequencies" by (simp add: frequencies_def)
  have p: "plain_token ''SAPBW''" by (simp add: plain_token_def special_chars_def)
  have q: "plain_token ''hilan''" by (simp add: plain_token_def special_chars_def)
  show ?thesis
    using f p q trigger_pattern_check_passes [OF f p q, of "''ScheduleTrigger''"]
    by simp
qed

subsection \<open>The classifier\<close>

text \<open>
  Claim C6 says that the classifier never fails. It calls \<^verbatim>\<open>lower\<close> on whatever is
  stored under \<^verbatim>\<open>type\<close> and tests membership in whatever is stored under
  \<^verbatim>\<open>properties\<close>: a \<^verbatim>\<open>null\<close> in either place raises.
\<close>

theorem identify_adf_resource_fails_counterexample:
  "identify_adf_resource [(''type'', JNull)] = Raises AttributeError
   \<and> identify_adf_resource [(''properties'', JNull)] = Raises TypeError"
  by code_simp

lemma py_in_container:
  "(\<exists>d. props = JObj d) \<or> (\<exists>s. props = JStr s) \<or> (\<exists>xs. props = JArr xs) \<Longrightarrow>
   \<exists>y. py_in k props = Returns y"
  by auto

lemma both_in_container:
  assumes "(\<exists>d. props = JObj d) \<or> (\<exists>s. props = JStr s) \<or> (\<exists>xs. props = JArr xs)"
  shows "\<exists>y. both_in a b props = Returns y"
proof -
  obtain x where x: "py_in a props = Returns x" using py_in_container [OF assms] by blast
  obtain z where z: "py_in b props = Returns z" using py_in_container [OF assms] by blast
  show ?thesis by (cases x) (auto simp: both_in_def x z)
qed

lemma identify_total:
  assumes "map_of doc ''type'' = None \<or> (\<exists>t. map_of doc ''type'' = Some (JStr t))"
    and "map_of doc ''properties'' = None
         \<or> (\<exists>d. map_of doc ''properties'' = Some (JObj d))
         \<or> (\<exists>s. map_of doc ''properties'' = Some (JStr s))
         \<or> (\<exists>xs. map_of doc ''properties'' = Some (JArr xs))"
  shows "\<exists>k. identify_adf_resource doc = Returns k"
proof -
  obtain t where t: "dict_get doc ''type'' (JStr []) = JStr t"
    using assms(1) by (auto simp: dict_get_def)
  define props where "props = dict_get doc ''properties'' (JObj [])"
  have c: "(\<exists>d. props = JObj d) \<or> (\<exists>s. props = JStr s) \<or> (\<exists>xs. props = JArr xs)"
    using assms(2) by (auto simp: props_def dict_get_def)
  obtain p where p: "py_in ''activities'' props = Returns p"
    using py_in_container [OF c] by blast
  obtain d where d: "both_in ''typeProperties'' ''linkedServiceName'' props = Returns d"
    using both_in_container [OF c] by blast
  obtain l where l: "both_in ''connectVia'' ''type'' props = Returns l"
    using both_in_container [OF c] by blast
  obtain g where g: "both_in ''pipelines'' ''type'' props = Returns g"
    using both_in_container [OF c] by blast
  show ?thesis
    unfolding identify_adf_resource_def t props_def [symmetric] Let_def
    by (simp add: p d l g)
qed

lemma lower_empty_suffixes:
  "\<not> endswith (lower []) ''/pipelines'' \<and> \<not> endswith (lower []) ''/datasets''
   \<and> \<not> endswith (lower []) ''/linkedservices'' \<and> \<not> endswith (lower []) ''/triggers''"
  by (simp add: endswith_def lower_def)

lemma identify_unknown:
  assumes "map_of doc ''type'' = None"
    and "map_of doc ''properties'' = None
         \<or> (\<exists>d. map_of doc ''properties'' = Some (JObj d)
                \<and> map_of d ''activities'' = None \<and> map_of d ''typeProperties'' = None
                \<and> map_of d ''connectVia'' = None \<and> map_of d ''pipelines'' = None)"
  shows "identify_adf_resource doc = Returns UNKNOWN"
proof -
  have t: "dict_get doc ''type'' (JStr []) = JStr []"
    using assms(1) by (simp add: dict_get_def)
  obtain d where d: "dict_get doc ''properties'' (JObj []) = JObj d"
    "map_of d ''activities'' = None" "map_of d ''typeProperties'' = None"
    "map_of d ''connectVia'' = None" "map_of d ''pipelines'' = None"
    using assms(2) by (auto simp: dict_get_def)
  show ?thesis
    unfolding identify_adf_resource_def t Let_def d(1)
    using lower_empty_suffixes by (simp add: both_in_def d)
qed

text \<open>
  Claim C6, amended: a document whose \<^verbatim>\<open>type\<close> is a string that ends, in lower case,
  with \<^verbatim>\<open>/pipelines\<close> is a Pipeline whatever \<^verbatim>\<open>properties\<close> holds; the classifier
  returns a kind for every document whose \<^verbatim>\<open>type\<close> is absent or a string and whose
  \<^verbatim>\<open>properties\<close> is absent or an object, a string or an array; and a document with no
  \<^verbatim>\<open>type\<close> and no \<^verbatim>\<open>properties\<close> (or with properties that have none of the keys
  looked for) is Unknown.
\<close>

theorem identify_adf_resource_pipelines_first:
  "(map_of doc ''type'' = Some (JStr t) \<and> endswith (lower t) ''/pipelines''
      \<longrightarrow> identify_adf_resource doc = Returns PIPELINE)
   \<and> ((map_of doc ''type'' = None \<or> (\<exists>t. map_of doc ''type'' = Some (JStr t)))
       \<and> (map_of doc ''properties'' = None
          \<or> (\<exists>d. map_of doc ''properties'' = Some (JObj d))
          \<or> (\<exists>s. map_of doc ''properties'' = Some (JStr s))
          \<or> (\<exists>xs. map_of doc ''properties'' = Some (JArr xs)))
      \<longrightarrow> (\<exists>k. identify_adf_resource doc = Returns k))
   \<and> (map_of doc ''type'' = None
       \<and> (map_of doc ''properties'' = None
          \<or> (\<exists>d. map_of doc ''properties'' = Some (JObj d)
                 \<and> map_of d ''activities'' = None \<and> map_of d ''typeProperties'' = None
                 \<and> map_of d ''connectVia'' = None \<and> map_of d ''pipelines'' = None))
      \<longrightarrow> identify_adf_resource doc = Returns UNKNOWN)"
proof (intro conjI impI)
  assume "map_of doc ''type'' = Some (JStr t) \<and> endswith (lower t) ''/pipelines''"
  then show "identify_adf_resource doc = Returns PIPELINE"
    by (simp add: identify_adf_resource_def dict_get_def)
next
  assume a: "(map_of doc ''type'' = None \<or> (\<exists>t. map_of doc ''type'' = Some (JStr t)))
       \<and> (map_of doc ''properties'' = None
          \<or> (\<exists>d. map_of doc ''properties'' = Some (JObj d))
          \<or> (\<exists>s. map_of doc ''properties'' = Some (JStr s))
          \<or> (\<exists>xs. map_of doc ''properties'' = Some (JArr xs)))"
  show "\<exists>k. identify_adf_resource doc = Returns k"
    using identify_total [of doc] a by blast
next
  assume a: "map_of doc ''type'' = None
       \<and> (map_of doc ''properties'' = None
          \<or> (\<exists>d. map_of doc ''properties'' = Some (JObj d)
                 \<and> map_of d ''activities'' = None \<and> map_of d ''typeProperties'' = None
                 \<and> map_of d ''connectVia'' = None \<and> map_of d ''pipelines'' = None))"
  from a have "map_of doc ''type'' = None" by (rule conjunct1)
  moreover from a have "map_of doc ''properties'' = None
          \<or> (\<exists>d. map_of doc ''properties'' = Some (JObj d)
                 \<and> map_of d ''activities'' = None \<and> map_of d ''typeProperties'' = None
                 \<and> map_of d ''connectVia'' = None \<and> map_of d ''pipelines'' = None)"
    by (rule conjunct2)
  ultimately show "identify_adf_resource doc = Returns UNKNOWN"
    by (rule identify_unknown)
qed

theorem identify_adf_resource_pipelines_first_witness:
  "map_of [(''type'', JStr ''Microsoft.DataFactory/factories/Pipelines''),
           (''properties'', JNull)] ''type''
     = Some (JStr ''Microsoft.DataFactory/factories/Pipelines'')
   \<and> endswith (lower ''Microsoft.DataFactory/factories/Pipelines'') ''/pipelines''
   \<and> identify_adf_resource
        [(''type'', JStr ''Microsoft.DataFactory/factories/Pipelines''),
         (''properties'', JNull)] = Returns PIPELINE
   \<and> map_of [(''properties'', JObj [(''activities'', JArr [])])] ''type'' = None
   \<and> (\<exists>k. identify_adf_resource [(''properties'', JObj [(''activities'', JArr [])])]
            = Returns k)
   \<and> identify_adf_resource [(''name'', JStr ''x'')] = Returns UNKNOWN"
proof -
  let ?d1 = "[(''type'', JStr ''Microsoft.DataFactory/factories/Pipelines''),
              (''properties'', JNull)]"
  let ?d2 = "[(''properties'', JObj [(''activities'', JArr [])])]"
  let ?d3 = "[(''name'', JStr ''x'')]"
  have e: "endswith (lower ''Microsoft.DataFactory/factories/Pipelines'') ''/pipelines''"
    by code_simp
  have h1: "map_of ?d1 ''type'' = Some (JStr ''Microsoft.DataFactory/factories/Pipelines'')"
    by simp
  have h2: "map_of ?d2 ''type'' = None"
    "\<exists>d. map_of ?d2 ''properties'' = Some (JObj d)" by simp_all
  have h3: "map_of ?d3 ''type'' = None" "map_of ?d3 ''properties'' = None" by simp_all
  show ?thesis
    using e h1 h2 h3
      identify_adf_resource_pipelines_first
        [of ?d1 "''Microsoft.DataFactory/factories/Pipelines''"]
      identify_adf_resource_pipelines_first [of ?d2]
      identify_adf_resource_pipelines_first [of ?d3]
    by blast
qed

subsection \<open>The dispatcher\<close>

text \<open>
  Claim C2 says that a document lacking a field its evaluator needs gets a single
  "malformed resource" violation. The dispatcher reads the fields with \<^verbatim>\<open>[...]\<close> and
  catches nothing: a Dataset document without \<^verbatim>\<open>properties.type\<close> raises
  \<^verbatim>\<open>KeyError\<close>.
\<close>

theorem lint_resource_missing_field_counterexample:
  "identify_adf_resource
     [(''type'', JStr ''Microsoft.DataFactory/factories/datasets''),
      (''name'', JStr ''DS_SQL_CUSTOMERS_CSV''), (''properties'', JObj [])]
     = Returns DATASET
   \<and> lint_resource \<lparr>LinkedService = [], Dataset = []\<rparr>
       [(''type'', JStr ''Microsoft.DataFactory/factories/datasets''),
        (''name'', JStr ''DS_SQL_CUSTOMERS_CSV''), (''properties'', JObj [])]
     = Raises KeyError"
  by code_simp

text \<open>
  Claim C2, amended: for a document classified as Pipeline, Dataset, LinkedService or
  Trigger that has no \<^verbatim>\<open>name\<close>, and for a Dataset or Trigger document that has no
  \<^verbatim>\<open>properties\<close> or whose properties have no \<^verbatim>\<open>type\<close>, the dispatcher raises
  \<^verbatim>\<open>KeyError\<close> and returns no violation list.
\<close>

theorem lint_resource_missing_field_raises:
  "(identify_adf_resource doc = Returns k \<and> k \<noteq> UNKNOWN \<and> map_of doc ''name'' = None
      \<longrightarrow> lint_resource abbr doc = Raises KeyError)
   \<and> (identify_adf_resource doc = Returns k \<and> (k = DATASET \<or> k = TRIGGER)
       \<and> (map_of doc ''properties'' = None
          \<or> (\<exists>p. map_of doc ''properties'' = Some (JObj p) \<and> map_of p ''type'' = None))
      \<longrightarrow> lint_resource abbr doc = Raises KeyError)"
proof (intro conjI impI)
  assume "identify_adf_resource doc = Returns k \<and> k \<noteq> UNKNOWN \<and> map_of doc ''name'' = None"
  then show "lint_resource abbr doc = Raises KeyError"
    by (cases k) (simp_all add: lint_resource_def dict_getitem_def)
next
  assume a: "identify_adf_resource doc = Returns k \<and> (k = DATASET \<or> k = TRIGGER)
       \<and> (map_of doc ''properties'' = None
          \<or> (\<exists>p. map_of doc ''properties'' = Some (JObj p) \<and> map_of p ''type'' = None))"
  show "lint_resource abbr doc = Raises KeyError"
  proof (cases "map_of doc ''name''")
    case None
    with a show ?thesis by (auto simp: lint_resource_def dict_getitem_def)
  next
    case (Some n)
    with a show ?thesis by (auto simp: lint_resource_def dict_getitem_def)
  qed
qed

theorem lint_resource_missing_field_raises_witness:
  "identify_adf_resource [(''type'', JStr ''Microsoft.DataFactory/factories/pipelines'')]
     = Returns PIPELINE
   \<and> map_of [(''type'', JStr ''Microsoft.DataFactory/factories/pipelines'')] ''name'' = None
   \<and> lint_resource \<lparr>LinkedService = [], Dataset = []\<rparr>
        [(''type'', JStr ''Microsoft.DataFactory/factories/pipelines'')] = Raises KeyError
   \<and> identify_adf_resource
        [(''type'', JStr ''Microsoft.DataFactory/factories/datasets''),
         (''name'', JStr ''DS_SQL_CUSTOMERS_CSV''), (''properties'', JObj [])]
        = Returns DATASET
   \<and> lint_resource \<lparr>LinkedService = [], Dataset = []\<rparr>
        [(''type'', JStr ''Microsoft.DataFactory/factories/datasets''),
         (''name'', JStr ''DS_SQL_CUSTOMERS_CSV''), (''properties'', JObj [])]
        = Raises KeyError"
proof -
  let ?a = "\<lparr>LinkedService = [], Dataset = []\<rparr>"
  let ?d1 = "[(''type'', JStr ''Microsoft.DataFactory/factories/pipelines'')]"
  let ?d2 = "[(''type'', JStr ''Microsoft.DataFactory/factories/datasets''),
              (''name'', JStr ''DS_SQL_CUSTOMERS_CSV''), (''properties'', JObj [])]"
  have i1: "identify_adf_resource ?d1 = Returns PIPELINE" by code_simp
  have i2: "identify_adf_resource ?d2 = Returns DATASET" by code_simp
  have n1: "map_of ?d1 ''name'' = None" by simp
  have p2: "\<exists>p. map_of ?d2 ''properties'' = Some (JObj p) \<and> map_of p ''type'' = None"
    by simp
  show ?thesis
    using i1 i2 n1 p2
      lint_resource_missing_field_raises [of ?d1 PIPELINE ?a]
      lint_resource_missing_field_raises [of ?d2 DATASET ?a]
    by simp
qed

subsection \<open>Further properties of the evaluators\<close>

text \<open>
  The key vault evaluator compares the secret kind in lower case: \<^verbatim>\<open>Username\<close> and
  \<^verbatim>\<open>PASSWORD\<close> pass, another kind gives one violation.
\<close>

theorem lint_key_vault_case_insensitive:
  "lint_key_vault kv_name ''Username'' = [] \<and> lint_key_vault kv_name ''PASSWORD'' = []
   \<and> lint_key_vault kv_name ''secret'' = [kv_violation kv_name ''secret'']"
  by code_simp

lemma startswith_set: "startswith s p \<Longrightarrow> set p \<subseteq> set s"
  by (induction s p rule: startswith.induct) auto

lemma no_hyphen_prefixes:
  assumes "CHR ''-'' \<notin> set trigger_name"
  shows "\<not> startswith trigger_name ''Daily-''"
    and "\<not> startswith trigger_name ''Hourly-''"
    and "\<not> startswith trigger_name ''Weekly-''"
    and "\<not> startswith trigger_name ''Monthly-''"
    and "\<not> startswith trigger_name ''File-''"
  using assms startswith_set [of trigger_name "''Daily-''"]
    startswith_set [of trigger_name "''Hourly-''"]
    startswith_set [of trigger_name "''Weekly-''"]
    startswith_set [of trigger_name "''Monthly-''"]
    startswith_set [of trigger_name "''File-''"]
  by auto

text \<open>
  A trigger name without a hyphen has one token, reading token 1 raises \<^verbatim>\<open>IndexError\<close>,
  and the evaluator returns the violations found so far followed by the "not properly
  formatted" violation.
\<close>

theorem lint_trigger_no_hyphen:
  assumes "CHR ''-'' \<notin> set trigger_name"
  shows "lint_trigger trigger_name trigger_type =
     Returns ((if trigger_type = ''ScheduleTrigger'' then [schedule_violation trigger_name]
               else [])
              @ (if trigger_type = ''BlobEventsTrigger'' then [file_violation trigger_name]
                 else [])
              @ [not_formatted_violation trigger_name])"
proof -
  have t: "split_on CHR ''-'' trigger_name = [trigger_name]"
    by (rule split_on_no_sep [OF assms])
  have g: "getitem [trigger_name] 1 = Raises IndexError" by (simp add: getitem_def)
  show ?thesis
    unfolding lint_trigger_def Let_def t g obind.simps
    by (simp add: no_hyphen_prefixes [OF assms])
qed

theorem lint_trigger_no_hyphen_witness:
  "CHR ''-'' \<notin> set ''Weekly''
   \<and> lint_trigger ''Weekly'' ''ScheduleTrigger'' =
       Returns [schedule_violation ''Weekly'', not_formatted_violation ''Weekly'']"
proof -
  have h: "CHR ''-'' \<notin> set ''Weekly''" by simp
  show ?thesis using h lint_trigger_no_hyphen [OF h, of "''ScheduleTrigger''"] by simp
qed

text \<open>
  A document classified as Unknown gets one violation, which names the resource, with
  \<^verbatim>\<open>N/A\<close> in place of a missing name.
\<close>

theorem lint_resource_unknown:
  assumes "identify_adf_resource doc = Returns UNKNOWN"
  shows "(map_of doc ''name'' = None \<longrightarrow>
            lint_resource abbr doc = Returns [''Unknown resource type for N/A''])
     \<and> (map_of doc ''name'' = Some (JStr n) \<longrightarrow>
            lint_resource abbr doc = Returns [''Unknown resource type for '' @ n])"
  using assms by (simp add: lint_resource_def dict_get_def unknown_violation_def)

theorem lint_resource_unknown_witness:
  "identify_adf_resource [] = Returns UNKNOWN
   \<and> lint_resource \<lparr>LinkedService = [], Dataset = []\<rparr> []
       = Returns [''Unknown resource type for N/A'']
   \<and> identify_adf_resource [(''name'', JStr ''x'')] = Returns UNKNOWN
   \<and> lint_resource \<lparr>LinkedService = [], Dataset = []\<rparr> [(''name'', JStr ''x'')]
       = Returns [''Unknown resource type for x'']"
proof -
  have a: "identify_adf_resource [] = Returns UNKNOWN" by code_simp
  have b: "identify_adf_resource [(''name'', JStr ''x'')] = Returns UNKNOWN" by code_simp
  show ?thesis
    using a b lint_resource_unknown [OF a, of "\<lparr>LinkedService = [], Dataset = []\<rparr>"]
      lint_resource_unknown [OF b, of "\<lparr>LinkedService = [], Dataset = []\<rparr>" "''x''"]
    by simp
qed

end
